theory Spec2Isabelle
  imports Complex_Main "HOL-Library.Char_ord" "HOL-Library.List_Lexorder"
begin

section \<open>Cell values and the value normalizer\<close>

text \<open>
  A cell of a loaded table is a scalar: an integer, a finite float (carried by its exact
  rational value), the float NaN, a string, a boolean or None.  All of them are hashable,
  so the membership test \<^verbatim>\<open>x in true_values\<close> of \<^verbatim>\<open>prepare_boolean_matrix\<close> is the
  search for an element of the set that is equal to \<^verbatim>\<open>x\<close> under Python's \<^verbatim>\<open>==\<close>.
\<close>

datatype cell = CInt int | CFloat rat | CNaN | CStr string | CBool bool | CNone

text \<open>The numeric value of a cell: \<^verbatim>\<open>bool\<close> is a subclass of \<^verbatim>\<open>int\<close>, NaN has none.\<close>

fun py_num :: "cell \<Rightarrow> rat option" where
  "py_num (CInt n) = Some (of_int n)"
| "py_num (CFloat r) = Some r"
| "py_num (CBool b) = Some (if b then 1 else 0)"
| "py_num CNaN = None"
| "py_num (CStr s) = None"
| "py_num CNone = None"

text \<open>Python's \<^verbatim>\<open>==\<close> on cells: numbers by value across int, float and bool; strings by
  content; None only to None; NaN to nothing.\<close>

fun py_eq :: "cell \<Rightarrow> cell \<Rightarrow> bool" where
  "py_eq (CStr s) (CStr t) = (s = t)"
| "py_eq CNone CNone = True"
| "py_eq x y = (case (py_num x, py_num y) of (Some a, Some b) \<Rightarrow> a = b | _ \<Rightarrow> False)"

text \<open>\<^verbatim>\<open>true_values = {1, "1", "yes", "YES", "Yes", True}\<close> and
  \<^verbatim>\<open>false_values = {0, "0", "no", "NO", "No", False}\<close> (the latter is never read).\<close>

definition true_values :: "cell list" where
  "true_values = [CInt 1, CStr ''1'', CStr ''yes'', CStr ''YES'', CStr ''Yes'', CBool True]"

definition false_values :: "cell list" where
  "false_values = [CInt 0, CStr ''0'', CStr ''no'', CStr ''NO'', CStr ''No'', CBool False]"

text \<open>\<^verbatim>\<open>x in s\<close> for a set literal \<^verbatim>\<open>s\<close>.\<close>

definition py_in :: "cell \<Rightarrow> cell list \<Rightarrow> bool" where
  "py_in x s = list_ex (py_eq x) s"

text \<open>\<^verbatim>\<open>lambda x: True if x in true_values else False\<close>\<close>

definition normalize_value :: "cell \<Rightarrow> bool" where
  "normalize_value x = (if py_in x true_values then True else False)"

section \<open>Errors\<close>

text \<open>
  \<^verbatim>\<open>sys.exit(message)\<close> prints the message on the error stream and ends the process with
  status 1.  The five messages of the program, by the call that produces them:
  \<^item> \<open>FileNotFound path\<close>: \<^verbatim>\<open>"Error: File not found -> {path}"\<close> (\<^verbatim>\<open>load_dataset\<close>);
  \<^item> \<open>UnsupportedFormat\<close>: \<^verbatim>\<open>"Unsupported file format. Use CSV/TSV/Excel."\<close>;
  \<^item> \<open>UseFileOrDemo\<close>: \<^verbatim>\<open>"Use --file or enable --demo mode."\<close> (\<^verbatim>\<open>main\<close>);
  \<^item> \<open>SpecifyColumns\<close>: \<^verbatim>\<open>"Specify column names using --columns."\<close>;
  \<^item> \<open>ColumnNotFound col\<close>: \<^verbatim>\<open>"Error: Column not found -> {col}"\<close>.
  \<open>KeyError\<close> and \<open>TypeError\<close> are the exceptions of the table operations.
\<close>

datatype exit_message =
  FileNotFound string | UnsupportedFormat | UseFileOrDemo | SpecifyColumns
  | ColumnNotFound string

datatype error = SysExit exit_message | KeyError string | TypeError

text \<open>The status the process ends with.\<close>

fun exit_status :: "error + 'a \<Rightarrow> nat" where
  "exit_status (Inl e) = 1"
| "exit_status (Inr v) = 0"

section \<open>Tables\<close>

text \<open>
  A DataFrame: the number of rows of its index and its labelled columns, in order.
  Every column of a table holds one cell per row.
\<close>

record dataframe =
  nrows :: nat
  data :: "(string \<times> cell list) list"

text \<open>\<^verbatim>\<open>df.columns\<close>\<close>

definition df_columns :: "dataframe \<Rightarrow> string list" where
  "df_columns df = map fst (data df)"

text \<open>\<^verbatim>\<open>df[columns]\<close> with a list of labels: a new table with the columns of each label, in
  the order of the list; \<^verbatim>\<open>KeyError\<close> when a label is not a column.\<close>

definition getitem_list :: "dataframe \<Rightarrow> string list \<Rightarrow> error + dataframe" where
  "getitem_list df columns =
     (case filter (\<lambda>c. c \<notin> set (df_columns df)) columns of
        c # _ \<Rightarrow> Inl (KeyError c)
      | [] \<Rightarrow> Inr \<lparr>nrows = nrows df,
                  data = concat (map (\<lambda>c. filter (\<lambda>(n, xs). n = c) (data df)) columns)\<rparr>)"

text \<open>\<^verbatim>\<open>matrix[col].apply(f)\<close> reads one column.  With a label that occurs once,
  \<^verbatim>\<open>matrix[col]\<close> is that column; with a repeated label it is a table, whose columns the
  lambda cannot hash (\<^verbatim>\<open>TypeError\<close>).\<close>

definition getitem_col :: "dataframe \<Rightarrow> string \<Rightarrow> error + cell list" where
  "getitem_col df col =
     (case filter (\<lambda>(n, xs). n = col) (data df) of
        [] \<Rightarrow> Inl (KeyError col)
      | [(n, xs)] \<Rightarrow> Inr xs
      | _ \<Rightarrow> Inl TypeError)"

text \<open>\<^verbatim>\<open>matrix[col] = series\<close>: the column of that label is replaced (a new label is
  appended).\<close>

definition setitem_col :: "dataframe \<Rightarrow> string \<Rightarrow> cell list \<Rightarrow> dataframe" where
  "setitem_col df col ys =
     (if col \<in> set (df_columns df)
      then df\<lparr>data := map (\<lambda>(n, xs). if n = col then (n, ys) else (n, xs)) (data df)\<rparr>
      else df\<lparr>data := data df @ [(col, ys)]\<rparr>)"

section \<open>The store of tables\<close>

text \<open>
  Tables are objects that the program passes by reference and updates in place.  The store
  holds them; an address is an index of the store, and a new object takes the next one.
\<close>

type_synonym addr = nat
type_synonym heap = "dataframe list"

definition alloc :: "dataframe \<Rightarrow> heap \<Rightarrow> addr \<times> heap" where
  "alloc df h = (length h, h @ [df])"

section \<open>\<^verbatim>\<open>prepare_boolean_matrix\<close>\<close>

text \<open>
  \<^verbatim>\<open>for col in columns: matrix[col] = matrix[col].apply(lambda x: ...)\<close>.
  The loop writes to the object at \<open>matrix\<close> only.
\<close>

fun normalize_loop :: "string list \<Rightarrow> addr \<Rightarrow> heap \<Rightarrow> (error + unit) \<times> heap" where
  "normalize_loop [] matrix h = (Inr (), h)"
| "normalize_loop (col # cols) matrix h =
     (case getitem_col (h ! matrix) col of
        Inl e \<Rightarrow> (Inl e, h)
      | Inr xs \<Rightarrow>
          normalize_loop cols matrix
            (h[matrix := setitem_col (h ! matrix) col (map (\<lambda>x. CBool (normalize_value x)) xs)]))"

text \<open>What the loop over the labels \<open>S\<close> makes of one labelled column.\<close>

definition norm_col :: "string set \<Rightarrow> string \<times> cell list \<Rightarrow> string \<times> cell list" where
  "norm_col S =
     (\<lambda>(n, xs). if n \<in> S then (n, map (\<lambda>x. CBool (normalize_value x)) xs) else (n, xs))"

text \<open>
  \<^verbatim>\<open>matrix = df[columns].copy()\<close>, the loop, \<^verbatim>\<open>return matrix\<close>.  The selection is a new
  object and the copy another one.
\<close>

definition prepare_boolean_matrix ::
  "addr \<Rightarrow> string list \<Rightarrow> heap \<Rightarrow> (error + addr) \<times> heap" where
  "prepare_boolean_matrix df columns h =
     (case getitem_list (h ! df) columns of
        Inl e \<Rightarrow> (Inl e, h)
      | Inr sel \<Rightarrow>
          (let (tmp, h1) = alloc sel h;
               (matrix, h2) = alloc (h1 ! tmp) h1
           in (case normalize_loop columns matrix h2 of
                 (Inl e, h3) \<Rightarrow> (Inl e, h3)
               | (Inr u, h3) \<Rightarrow> (Inr matrix, h3))))"

section \<open>\<^verbatim>\<open>plot_upset\<close>\<close>

text \<open>The truth value of a cell in \<^verbatim>\<open>if row[col]\<close>.\<close>

fun truthy :: "cell \<Rightarrow> bool" where
  "truthy (CInt n) = (n \<noteq> 0)"
| "truthy (CFloat r) = (r \<noteq> 0)"
| "truthy CNaN = True"
| "truthy (CStr s) = (s \<noteq> [])"
| "truthy (CBool b) = b"
| "truthy CNone = False"

text \<open>\<^verbatim>\<open>row[col]\<close> for the row of index \<open>i\<close>: the cell under the label.  The labels of the
  table are its own columns, so the label is always found.\<close>

definition row_cell :: "dataframe \<Rightarrow> nat \<Rightarrow> string \<Rightarrow> cell" where
  "row_cell boolean_df i col =
     (case map_of (data boolean_df) col of Some xs \<Rightarrow> xs ! i | None \<Rightarrow> CNone)"

text \<open>\<^verbatim>\<open>boolean_df.apply(lambda row: [col for col in boolean_df.columns if row[col]], axis=1)\<close>:
  the Membership Pattern of every row, as the list of its Set Names in column order.\<close>

definition memberships :: "dataframe \<Rightarrow> string list list" where
  "memberships boolean_df =
     map (\<lambda>i. filter (\<lambda>col. truthy (row_cell boolean_df i col)) (df_columns boolean_df))
       [0 ..< nrows boolean_df]"

text \<open>An Intersection Record: a Membership Pattern and its Count.\<close>

type_synonym intersection_record = "string list \<times> nat"

text \<open>
  Modelled from the spec: the grouping and counting of \<^verbatim>\<open>from_memberships\<close> and
  \<^verbatim>\<open>UpSet\<close> (the \<^verbatim>\<open>upsetplot\<close> package, which is not among the sources).  Section 4.2,
  steps 2 and 3: rows are grouped by Membership Pattern under set equality, and the rows
  of each distinct pattern are counted; the empty pattern is counted like any other.
\<close>

fun count_pattern :: "string list \<Rightarrow> intersection_record list \<Rightarrow> intersection_record list"
  where
  "count_pattern p [] = [(p, 1)]"
| "count_pattern p ((q, c) # rs) =
     (if set p = set q then (q, Suc c) # rs else (q, c) # count_pattern p rs)"

definition group_rows :: "string list list \<Rightarrow> intersection_record list" where
  "group_rows ps = foldl (\<lambda>rs p. count_pattern p rs) [] ps"

text \<open>
  Modelled from the spec: the order of \<^verbatim>\<open>UpSet(..., sort_by='cardinality')\<close> (the
  \<^verbatim>\<open>upsetplot\<close> package, which is not among the sources).  Section 4.2, step 4: by
  descending count, then by pattern size, then by the lexicographic order of the Set Names.
\<close>

definition record_le :: "intersection_record \<Rightarrow> intersection_record \<Rightarrow> bool" where
  "record_le r1 r2 =
     (snd r2 < snd r1
      \<or> (snd r1 = snd r2
         \<and> (length (fst r1) < length (fst r2)
            \<or> (length (fst r1) = length (fst r2) \<and> fst r1 \<le> fst r2))))"

fun insert_record :: "intersection_record \<Rightarrow> intersection_record list \<Rightarrow> intersection_record list"
  where
  "insert_record r [] = [r]"
| "insert_record r (s # rs) = (if record_le r s then r # s # rs else s # insert_record r rs)"

definition sort_records :: "intersection_record list \<Rightarrow> intersection_record list" where
  "sort_records rs = foldr insert_record rs []"

text \<open>The aggregation: patterns of the rows, grouped and counted, then ordered.\<close>

definition aggregate :: "dataframe \<Rightarrow> intersection_record list" where
  "aggregate boolean_df = sort_records (group_rows (memberships boolean_df))"

text \<open>The saved figure: the file it is written to and the Intersection Records it shows,
  in their order.\<close>

record plot =
  saved_as :: string
  shown :: "intersection_record list"

text \<open>\<^verbatim>\<open>plot_upset\<close> reads the table at \<open>boolean_df\<close> and assigns to none.\<close>

definition plot_upset :: "addr \<Rightarrow> string \<Rightarrow> heap \<Rightarrow> plot \<times> heap" where
  "plot_upset boolean_df output h =
     (\<lparr>saved_as = output, shown = aggregate (h ! boolean_df)\<rparr>, h)"

section \<open>\<^verbatim>\<open>load_dataset\<close>\<close>

text \<open>
  The file system and the parsers of \<^verbatim>\<open>pandas\<close> are parameters: whether a path exists,
  the table \<^verbatim>\<open>pd.read_csv(path, sep=...)\<close> returns and the table \<^verbatim>\<open>pd.read_excel(path)\<close>
  returns.
\<close>

record env =
  path_exists :: "string \<Rightarrow> bool"
  read_csv :: "string \<Rightarrow> string \<Rightarrow> dataframe"
  read_excel :: "string \<Rightarrow> dataframe"

text \<open>\<^verbatim>\<open>p.rfind(c)\<close>: the last index of \<open>c\<close>, or -1.\<close>

definition rfind :: "char \<Rightarrow> string \<Rightarrow> int" where
  "rfind c p =
     (case filter (\<lambda>i. p ! i = c) (rev [0 ..< length p]) of [] \<Rightarrow> - 1 | i # _ \<Rightarrow> int i)"

text \<open>
  \<^verbatim>\<open>os.path.splitext(path)[1]\<close> (POSIX): the extension starts at the last dot, when that
  dot comes after the last separator and some character of the file name before it is not
  a dot; it is empty otherwise.
\<close>

definition splitext_ext :: "string \<Rightarrow> string" where
  "splitext_ext p =
     (let sepIndex = rfind (CHR ''/'') p; dotIndex = rfind (CHR ''.'') p in
      if sepIndex < dotIndex
         \<and> list_ex (\<lambda>k. p ! k \<noteq> CHR ''.'') [nat (sepIndex + 1) ..< nat dotIndex]
      then drop (nat dotIndex) p else [])"

text \<open>\<^verbatim>\<open>str.lower()\<close> on the characters of a path.\<close>

definition lower_char :: "char \<Rightarrow> char" where
  "lower_char c =
     (if CHR ''A'' \<le> c \<and> c \<le> CHR ''Z'' then char_of (of_char c + (32::nat)) else c)"

definition lower :: "string \<Rightarrow> string" where
  "lower s = map lower_char s"

definition comma :: string where
  "comma = '',''"

definition tab :: string where
  "tab = [CHR 0x09]"

definition load_dataset :: "env \<Rightarrow> string \<Rightarrow> error + dataframe" where
  "load_dataset e path =
     (if \<not> path_exists e path then Inl (SysExit (FileNotFound path))
      else let ext = lower (splitext_ext path) in
        if ext \<in> set [''.csv''] then Inr (read_csv e path comma)
        else if ext \<in> set [''.tsv'', ''.txt''] then Inr (read_csv e path tab)
        else if ext \<in> set [''.xls'', ''.xlsx''] then Inr (read_excel e path)
        else Inl (SysExit UnsupportedFormat))"

section \<open>\<^verbatim>\<open>main\<close>\<close>

definition create_example_demo :: dataframe where
  "create_example_demo =
     \<lparr>nrows = 6,
      data =
        [(''Gene'', map CStr [''G1'', ''G2'', ''G3'', ''G4'', ''G5'', ''G6'']),
         (''Condition_A'', map CInt [1, 1, 0, 1, 0, 1]),
         (''Condition_B'', map CInt [0, 1, 1, 1, 0, 0]),
         (''Condition_C'', map CInt [1, 0, 1, 1, 1, 0])]\<rparr>"

text \<open>The parsed command line: \<^verbatim>\<open>--file\<close>, \<^verbatim>\<open>--columns\<close>, \<^verbatim>\<open>--output\<close>, \<^verbatim>\<open>--demo\<close>.\<close>

record args =
  arg_file :: "string option"
  arg_columns :: "string list option"
  arg_output :: string
  arg_demo :: bool

text \<open>\<^verbatim>\<open>not args.file\<close> and \<^verbatim>\<open>not args.columns\<close>: absent or empty.\<close>

fun py_not :: "'a list option \<Rightarrow> bool" where
  "py_not None = True"
| "py_not (Some xs) = (xs = [])"

text \<open>
  The table object is created in an empty store; \<^verbatim>\<open>main\<close> returns the figure that
  \<^verbatim>\<open>plot_upset\<close> saves, or the error that ends the process.
\<close>

definition main :: "env \<Rightarrow> args \<Rightarrow> error + plot" where
  "main e a =
     (case
        (if arg_demo a
         then Inr (create_example_demo, [''Condition_A'', ''Condition_B'', ''Condition_C''])
         else if py_not (arg_file a) then Inl (SysExit UseFileOrDemo)
         else
           (case load_dataset e (the (arg_file a)) of
              Inl err \<Rightarrow> Inl err
            | Inr df \<Rightarrow>
                if py_not (arg_columns a) then Inl (SysExit SpecifyColumns)
                else
                  (case filter (\<lambda>col. col \<notin> set (df_columns df)) (the (arg_columns a)) of
                     col # _ \<Rightarrow> Inl (SysExit (ColumnNotFound col))
                   | [] \<Rightarrow> Inr (df, the (arg_columns a)))))
      of
        Inl err \<Rightarrow> Inl err
      | Inr (df, columns) \<Rightarrow>
          (let (d, h0) = alloc df []
           in (case prepare_boolean_matrix d columns h0 of
                 (Inl err, h1) \<Rightarrow> Inl err
               | (Inr boolean_df, h1) \<Rightarrow>
                   Inr (fst (plot_upset boolean_df (arg_output a) h1)))))"

section \<open>The exit cases as the specification lists them\<close>

text \<open>The extensions \<^verbatim>\<open>load_dataset\<close> has a parser for.\<close>

definition supported_ext :: "string \<Rightarrow> bool" where
  "supported_ext path =
     (lower (splitext_ext path) \<in> set [''.csv'', ''.tsv'', ''.txt'', ''.xls'', ''.xlsx''])"

text \<open>
  The four cases of the specification's exit behaviour, in its words: the input file is
  missing; its extension is unsupported; \<^verbatim>\<open>--columns\<close> is not given; a requested column
  is absent from the loaded table.
\<close>

definition claimed_exit_case :: "env \<Rightarrow> args \<Rightarrow> bool" where
  "claimed_exit_case e a =
     ((case arg_file a of None \<Rightarrow> False | Some path \<Rightarrow> \<not> path_exists e path)
      \<or> (case arg_file a of None \<Rightarrow> False
          | Some path \<Rightarrow> path_exists e path \<and> \<not> supported_ext path)
      \<or> py_not (arg_columns a)
      \<or> (case (arg_file a, arg_columns a) of
            (Some path, Some cols) \<Rightarrow>
              (case load_dataset e path of
                 Inl err \<Rightarrow> False
               | Inr df \<Rightarrow> \<not> set cols \<subseteq> set (df_columns df))
          | _ \<Rightarrow> False))"

section \<open>Example inputs\<close>

text \<open>The six rows over the sets A, B, C of the specification's first scenario.\<close>

definition scenario_matrix :: dataframe where
  "scenario_matrix =
     \<lparr>nrows = 6,
      data =
        [(''A'', map CBool [True, True, False, True, False, True]),
         (''B'', map CBool [False, True, True, True, False, False]),
         (''C'', map CBool [True, False, True, True, True, False])]\<rparr>"

text \<open>A table with cells of several types, among them unrecognized ones.\<close>

definition mixed_table :: dataframe where
  "mixed_table =
     \<lparr>nrows = 4,
      data =
        [(''id'', map CInt [10, 11, 12, 13]),
         (''A'', [CStr ''yes'', CStr ''maybe'', CNone, CFloat 1]),
         (''B'', [CInt 2, CStr [], CBool True, CNaN])]\<rparr>"

text \<open>A file system with three files; a file read with the tab separator holds the demo
  table.\<close>

definition example_env :: env where
  "example_env =
     \<lparr>path_exists = (\<lambda>p. p \<in> set [''data.txt'', ''data.tsv'', ''notes.md'']),
      read_csv = (\<lambda>p sep. if sep = tab then create_example_demo else \<lparr>nrows = 6, data = []\<rparr>),
      read_excel = (\<lambda>p. \<lparr>nrows = 0, data = []\<rparr>)\<rparr>"

text \<open>\<^verbatim>\<open>--columns Condition_A\<close> without \<^verbatim>\<open>--file\<close> and without \<^verbatim>\<open>--demo\<close>.\<close>

definition no_file_args :: args where
  "no_file_args =
     \<lparr>arg_file = None, arg_columns = Some [''Condition_A''],
      arg_output = ''upset_plot.png'', arg_demo = False\<rparr>"

text \<open>\<^verbatim>\<open>--file data.txt\<close> without \<^verbatim>\<open>--columns\<close>.\<close>

definition no_columns_args :: args where
  "no_columns_args =
     \<lparr>arg_file = Some ''data.txt'', arg_columns = None,
      arg_output = ''upset_plot.png'', arg_demo = False\<rparr>"

text \<open>\<^verbatim>\<open>--file data.txt --columns Condition_A Condition_D\<close>.\<close>

definition absent_column_args :: args where
  "absent_column_args =
     \<lparr>arg_file = Some ''data.txt'', arg_columns = Some [''Condition_A'', ''Condition_D''],
      arg_output = ''upset_plot.png'', arg_demo = False\<rparr>"

section \<open>The value normalizer\<close>

lemma normalize_iff: "normalize_value x = (\<exists>t \<in> set true_values. py_eq x t)"
  by (simp add: normalize_value_def py_in_def list_ex_iff)

lemma normalize_value_bool: "normalize_value (CBool b) = b"
  by (cases b) (simp_all add: normalize_value_def py_in_def true_values_def)

text \<open>
  C2 (normalization correctness).  The normalizer maps integer 1, the strings "1", "yes",
  "YES", "Yes" and boolean true to true, and maps integer 0, the strings "0", "no",
  "maybe" and None to false.
\<close>

theorem normalize_literals:
  "normalize_value (CInt 1) \<and> normalize_value (CStr ''1'') \<and> normalize_value (CStr ''yes'')
   \<and> normalize_value (CStr ''YES'') \<and> normalize_value (CStr ''Yes'')
   \<and> normalize_value (CBool True)
   \<and> \<not> normalize_value (CInt 0) \<and> \<not> normalize_value (CStr ''0'')
   \<and> \<not> normalize_value (CStr ''no'')
   \<and> \<not> normalize_value (CStr ''maybe'') \<and> \<not> normalize_value CNone"
  by (simp add: normalize_value_def py_in_def true_values_def)

text \<open>
  C9 (membership by value equality).  A cell that is equal, under Python's equality, to
  one of the listed true literals normalizes to true, whether or not it is itself one of
  the literals: the float 1.0 equals the integer 1 and normalizes to true.
\<close>

theorem normalize_by_equality:
  "t \<in> set true_values \<Longrightarrow> py_eq v t \<Longrightarrow> normalize_value v"
  unfolding normalize_value_def py_in_def list_ex_iff by auto

text \<open>
  The float 1.0 is not an element of the list of literals; it is equal to the integer 1.
\<close>

theorem normalize_by_equality_witness:
  "CInt 1 \<in> set true_values \<and> py_eq (CFloat 1) (CInt 1) \<and> CFloat 1 \<notin> set true_values
   \<and> normalize_value (CFloat 1)"
proof -
  have a: "CInt 1 \<in> set true_values" by (simp add: true_values_def)
  have b: "py_eq (CFloat 1) (CInt 1)" by simp
  have c: "CFloat 1 \<notin> set true_values" by (simp add: true_values_def)
  show ?thesis using normalize_by_equality [OF a b] a b c by simp
qed

section \<open>The table operations of \<^verbatim>\<open>prepare_boolean_matrix\<close>\<close>

lemma filter_label_distinct:
  "distinct (map fst xs) \<Longrightarrow> (c, v) \<in> set xs \<Longrightarrow> filter (\<lambda>(n, ys). n = c) xs = [(c, v)]"
proof (induction xs)
  case Nil
  then show ?case by simp
next
  case (Cons x xs)
  show ?case
  proof (cases "fst x = c")
    case True
    with Cons.prems have "x = (c, v)" by (cases x) (auto simp: image_iff)
    moreover have "filter (\<lambda>(n, ys). n = c) xs = []"
      using Cons.prems True by (auto simp: filter_empty_conv image_iff)
    ultimately show ?thesis by simp
  next
    case False
    with Cons show ?thesis by (cases x) auto
  qed
qed

lemma map_of_label:
  "distinct (map fst xs) \<Longrightarrow> c \<in> set (map fst xs) \<Longrightarrow> (c, the (map_of xs c)) \<in> set xs"
  by (induction xs) (auto simp: image_iff)

lemma filter_label_map_of:
  "distinct (map fst xs) \<Longrightarrow> c \<in> set (map fst xs) \<Longrightarrow>
   filter (\<lambda>(n, ys). n = c) xs = [(c, the (map_of xs c))]"
  by (rule filter_label_distinct) (simp_all add: map_of_label)

lemma getitem_col_distinct:
  "distinct (df_columns f) \<Longrightarrow> col \<in> set (df_columns f) \<Longrightarrow>
   getitem_col f col = Inr (the (map_of (data f) col))"
  by (simp add: getitem_col_def df_columns_def filter_label_map_of)

lemma getitem_list_distinct:
  assumes "distinct (df_columns f)" and "set cols \<subseteq> set (df_columns f)"
  shows "getitem_list f cols =
           Inr \<lparr>nrows = nrows f, data = map (\<lambda>c. (c, the (map_of (data f) c))) cols\<rparr>"
proof -
  have "filter (\<lambda>c. c \<notin> set (df_columns f)) cols = []"
    using assms(2) by (auto simp: filter_empty_conv)
  moreover have "concat (map (\<lambda>c. filter (\<lambda>(n, xs). n = c) (data f)) cols)
      = map (\<lambda>c. (c, the (map_of (data f) c))) cols"
    using assms(2)
  proof (induction cols)
    case Nil
    then show ?case by simp
  next
    case (Cons c cols)
    then show ?case
      using filter_label_map_of [of "data f" c] assms(1) by (simp add: df_columns_def)
  qed
  ultimately show ?thesis by (simp add: getitem_list_def)
qed

lemma setitem_col_distinct:
  assumes "distinct (df_columns f)" and "col \<in> set (df_columns f)"
  shows "setitem_col f col (map g (the (map_of (data f) col)))
         = f\<lparr>data := map (\<lambda>(n, xs). if n = col then (n, map g xs) else (n, xs)) (data f)\<rparr>"
proof -
  have "\<And>n xs. (n, xs) \<in> set (data f) \<Longrightarrow> n = col \<Longrightarrow> xs = the (map_of (data f) col)"
    using assms(1) by (simp add: df_columns_def)
  then have "map (\<lambda>(n, xs). if n = col then (n, map g (the (map_of (data f) col))) else (n, xs)) (data f)
     = map (\<lambda>(n, xs). if n = col then (n, map g xs) else (n, xs)) (data f)"
    by (intro map_cong) auto
  then show ?thesis using assms(2) by (simp add: setitem_col_def)
qed

lemma normalize_loop_distinct:
  "m < length h \<Longrightarrow> distinct (df_columns (h ! m)) \<Longrightarrow> set cols \<subseteq> set (df_columns (h ! m)) \<Longrightarrow>
   normalize_loop cols m h = (Inr (), h[m := (h ! m)\<lparr>data := map (norm_col (set cols)) (data (h ! m))\<rparr>])"
proof (induction cols arbitrary: h)
  case Nil
  have "map (norm_col {}) (data (h ! m)) = data (h ! m)"
    by (induction "data (h ! m)") (auto simp: norm_col_def map_idI)
  then show ?case by (simp add: list_update_same_conv)
next
  case (Cons col cols)
  let ?g = "\<lambda>x. CBool (normalize_value x)"
  let ?f1 = "(h ! m)\<lparr>data := map (\<lambda>(n, xs). if n = col then (n, map ?g xs) else (n, xs)) (data (h ! m))\<rparr>"
  let ?h1 = "h[m := ?f1]"
  have col: "col \<in> set (df_columns (h ! m))" using Cons.prems by simp
  have g: "getitem_col (h ! m) col = Inr (the (map_of (data (h ! m)) col))"
    using Cons.prems col by (simp add: getitem_col_distinct)
  have s: "setitem_col (h ! m) col (map ?g (the (map_of (data (h ! m)) col))) = ?f1"
    using Cons.prems col by (rule_tac setitem_col_distinct)
  have cols1: "df_columns ?f1 = df_columns (h ! m)"
    by (auto simp: df_columns_def split: prod.splits)
  have "normalize_loop cols m ?h1
      = (Inr (), ?h1[m := (?h1 ! m)\<lparr>data := map (norm_col (set cols)) (data (?h1 ! m))\<rparr>])"
    using Cons.prems cols1 by (intro Cons.IH) simp_all
  moreover have "map (norm_col (set cols)) (data ?f1) = map (norm_col (set (col # cols))) (data (h ! m))"
    by (auto simp: norm_col_def normalize_value_bool)
  ultimately show ?case using g s Cons.prems(1) by (simp del: map_eq_conv)
qed

lemma prepare_distinct:
  assumes "df < length h" and "distinct (df_columns (h ! df))"
    and "distinct columns" and "set columns \<subseteq> set (df_columns (h ! df))"
  shows "prepare_boolean_matrix df columns h =
    (Inr (Suc (length h)),
     h @ [\<lparr>nrows = nrows (h ! df), data = map (\<lambda>c. (c, the (map_of (data (h ! df)) c))) columns\<rparr>,
          \<lparr>nrows = nrows (h ! df),
           data = map (\<lambda>c. (c, map (\<lambda>x. CBool (normalize_value x)) (the (map_of (data (h ! df)) c)))) columns\<rparr>])"
proof -
  let ?sel = "\<lparr>nrows = nrows (h ! df), data = map (\<lambda>c. (c, the (map_of (data (h ! df)) c))) columns\<rparr>"
  let ?h2 = "h @ [?sel, ?sel]"
  let ?m = "Suc (length h)"
  have sel: "getitem_list (h ! df) columns = Inr ?sel"
    using assms by (simp add: getitem_list_distinct)
  have m: "?h2 ! ?m = ?sel" by (simp add: nth_append)
  have cols: "df_columns ?sel = columns" by (simp add: df_columns_def comp_def)
  have "normalize_loop columns ?m ?h2
      = (Inr (), ?h2[?m := (?h2 ! ?m)\<lparr>data := map (norm_col (set columns)) (data (?h2 ! ?m))\<rparr>])"
    by (rule normalize_loop_distinct) (simp_all only: m cols assms, simp_all)
  moreover have "map (norm_col (set columns)) (data ?sel)
      = map (\<lambda>c. (c, map (\<lambda>x. CBool (normalize_value x)) (the (map_of (data (h ! df)) c)))) columns"
    by (simp add: norm_col_def)
  ultimately have "normalize_loop columns ?m ?h2 =
      (Inr (), h @ [?sel, \<lparr>nrows = nrows (h ! df),
           data = map (\<lambda>c. (c, map (\<lambda>x. CBool (normalize_value x)) (the (map_of (data (h ! df)) c)))) columns\<rparr>])"
    by (simp add: m list_update_append del: map_eq_conv)
  then show ?thesis
    using sel by (simp add: prepare_boolean_matrix_def alloc_def nth_append)
qed

text \<open>
  C5 (normalization totality).  The normalizer returns a boolean for every cell value:
  a value that is equal to no true literal normalizes to false, among them the empty
  string, None, NaN and every number other than 1.  No cell value makes
  \<^verbatim>\<open>prepare_boolean_matrix\<close> raise: when the table's labels are distinct and the requested
  columns are distinct labels of the table, it returns a matrix whose columns are the
  requested ones, each cell the boolean that the normalizer yields.
\<close>

theorem normalization_total:
  assumes "df < length h" and "distinct (df_columns (h ! df))"
    and "distinct columns" and "set columns \<subseteq> set (df_columns (h ! df))"
  shows "(\<not> (\<exists>t \<in> set true_values. py_eq v t) \<longrightarrow> normalize_value v = False)
    \<and> normalize_value (CStr []) = False \<and> normalize_value CNone = False
    \<and> normalize_value CNaN = False
    \<and> (n \<noteq> 1 \<longrightarrow> normalize_value (CInt n) = False)
    \<and> (r \<noteq> 1 \<longrightarrow> normalize_value (CFloat r) = False)
    \<and> (\<exists>h'. prepare_boolean_matrix df columns h = (Inr (Suc (length h)), h')
          \<and> data (h' ! Suc (length h)) =
              map (\<lambda>c. (c, map (\<lambda>x. CBool (normalize_value x)) (the (map_of (data (h ! df)) c))))
                columns)"
proof -
  have "\<not> (\<exists>t \<in> set true_values. py_eq v t) \<longrightarrow> normalize_value v = False"
    by (simp add: normalize_iff)
  moreover have "normalize_value (CStr []) = False \<and> normalize_value CNone = False
      \<and> normalize_value CNaN = False"
    by (simp add: normalize_value_def py_in_def true_values_def)
  moreover have "n \<noteq> 1 \<longrightarrow> normalize_value (CInt n) = False"
    by (simp add: normalize_value_def py_in_def true_values_def)
  moreover have "r \<noteq> 1 \<longrightarrow> normalize_value (CFloat r) = False"
    by (simp add: normalize_value_def py_in_def true_values_def)
  moreover have "\<exists>h'. prepare_boolean_matrix df columns h = (Inr (Suc (length h)), h')
          \<and> data (h' ! Suc (length h)) =
              map (\<lambda>c. (c, map (\<lambda>x. CBool (normalize_value x)) (the (map_of (data (h ! df)) c))))
                columns"
    using prepare_distinct [OF assms] by (simp add: nth_append)
  ultimately show ?thesis by blast
qed

text \<open>
  The columns A and B of the mixed table: "maybe", None, the empty string, the integer 2
  and NaN become false; "yes", the float 1.0 and true become true.
\<close>

theorem normalization_total_witness:
  "(0::nat) < length [mixed_table] \<and> distinct (df_columns ([mixed_table] ! 0))
   \<and> distinct [''A'', ''B''] \<and> set [''A'', ''B''] \<subseteq> set (df_columns ([mixed_table] ! 0))
   \<and> \<not> py_in (CStr ''maybe'') true_values \<and> (2::int) \<noteq> 1 \<and> (5 / 2 :: rat) \<noteq> 1
   \<and> normalize_value (CStr ''maybe'') = False
   \<and> normalize_value (CInt 2) = False \<and> normalize_value (CFloat (5 / 2)) = False
   \<and> fst (prepare_boolean_matrix 0 [''A'', ''B''] [mixed_table]) = Inr 2
   \<and> data (snd (prepare_boolean_matrix 0 [''A'', ''B''] [mixed_table]) ! 2) =
        [(''A'', map CBool [True, False, False, True]),
         (''B'', map CBool [False, False, True, False])]"
proof -
  have a: "(0::nat) < length [mixed_table]" by simp
  have b: "distinct (df_columns ([mixed_table] ! 0))"
    by (simp add: df_columns_def mixed_table_def)
  have c: "distinct [''A'', ''B'']" by simp
  have d: "set [''A'', ''B''] \<subseteq> set (df_columns ([mixed_table] ! 0))"
    by (simp add: df_columns_def mixed_table_def)
  have e: "\<not> py_in (CStr ''maybe'') true_values"
    by (simp add: py_in_def true_values_def)
  have e': "\<not> (\<exists>t \<in> set true_values. py_eq (CStr ''maybe'') t)"
    using e by (simp add: py_in_def list_ex_iff)
  have f: "map (\<lambda>c. (c, map (\<lambda>x. CBool (normalize_value x)) (the (map_of (data ([mixed_table] ! 0)) c))))
                [''A'', ''B''] = [(''A'', map CBool [True, False, False, True]),
         (''B'', map CBool [False, False, True, False])]"
    by (simp add: mixed_table_def normalize_value_def py_in_def true_values_def)
  have g: "Suc (length [mixed_table]) = 2" by simp
  show ?thesis
    using normalization_total [OF a b c d, of "CStr ''maybe''" 2 "5 / 2"] a b c d e e'
    unfolding f g by auto
qed

section \<open>The store: what \<^verbatim>\<open>prepare_boolean_matrix\<close> writes\<close>

lemma normalize_loop_length: "length (snd (normalize_loop cols m h)) = length h"
  by (induction cols arbitrary: h) (simp_all split: sum.splits)

lemma normalize_loop_other: "b \<noteq> m \<Longrightarrow> snd (normalize_loop cols m h) ! b = h ! b"
  by (induction cols arbitrary: h) (simp_all split: sum.splits)

lemma normalize_loop_error: "fst (normalize_loop cols m h) = Inl err \<Longrightarrow> \<forall>msg. err \<noteq> SysExit msg"
proof (induction cols arbitrary: h)
  case Nil
  then show ?case by simp
next
  case (Cons col cols)
  then show ?case
    by (auto simp: getitem_col_def split: sum.splits list.splits prod.splits)
qed

lemma prepare_cases:
  assumes "prepare_boolean_matrix df columns h = (r, h')"
  shows "(\<exists>c. r = Inl (KeyError c) \<and> h' = h)
   \<or> (\<exists>sel u. getitem_list (h ! df) columns = Inr sel
        \<and> normalize_loop columns (Suc (length h)) (h @ [sel, sel]) = (u, h')
        \<and> r = (case u of Inl e \<Rightarrow> Inl e | Inr x \<Rightarrow> Inr (Suc (length h))))"
proof (cases "getitem_list (h ! df) columns")
  case (Inl e)
  then have "\<exists>c. e = KeyError c"
    by (auto simp: getitem_list_def split: list.splits)
  then show ?thesis using assms Inl by (auto simp: prepare_boolean_matrix_def)
next
  case (Inr sel)
  obtain u h3 where l: "normalize_loop columns (Suc (length h)) (h @ [sel, sel]) = (u, h3)"
    by (cases "normalize_loop columns (Suc (length h)) (h @ [sel, sel])")
  then have "h' = h3 \<and> r = (case u of Inl e \<Rightarrow> Inl e | Inr x \<Rightarrow> Inr (Suc (length h)))"
    using assms Inr
    by (auto simp: prepare_boolean_matrix_def alloc_def nth_append split: sum.splits)
  then show ?thesis using Inr l by auto
qed

text \<open>
  C7 (no mutation of input).  \<^verbatim>\<open>prepare_boolean_matrix\<close> leaves the table \<open>df\<close> and
  every other object of the store as it was; the matrix it returns is a new object, other
  than \<open>df\<close>; and \<^verbatim>\<open>plot_upset\<close> leaves the store, hence the matrix it reads, unchanged.
\<close>

theorem no_mutation_of_input:
  assumes "df < length h" and "prepare_boolean_matrix df columns h = (r, h')"
  shows "h' ! df = h ! df
    \<and> length h \<le> length h' \<and> (\<forall>b < length h. h' ! b = h ! b)
    \<and> (\<forall>matrix. r = Inr matrix \<longrightarrow>
          length h \<le> matrix \<and> matrix < length h' \<and> matrix \<noteq> df
          \<and> snd (plot_upset matrix output h') = h')"
proof -
  from prepare_cases [OF assms(2)]
  consider (err) c where "r = Inl (KeyError c)" "h' = h"
    | (run) sel u where "normalize_loop columns (Suc (length h)) (h @ [sel, sel]) = (u, h')"
        "r = (case u of Inl e \<Rightarrow> Inl e | Inr x \<Rightarrow> Inr (Suc (length h)))"
    by blast
  then show ?thesis
  proof cases
    case err
    then show ?thesis by simp
  next
    case run
    have h': "h' = snd (normalize_loop columns (Suc (length h)) (h @ [sel, sel]))"
      using run(1) by simp
    have len: "length h' = length h + 2"
      unfolding h' by (simp add: normalize_loop_length)
    have old: "h' ! b = h ! b" if "b < length h" for b
      unfolding h' using that by (simp add: normalize_loop_other nth_append)
    have res: "matrix = Suc (length h)" if "r = Inr matrix" for matrix
      using run(2) that by (cases u) simp_all
    show ?thesis
      using len old res assms(1) by (auto simp: plot_upset_def)
  qed
qed

text \<open>
  The mixed table is still the object at address 0 after its columns A and B were
  normalized into the new object at address 2.
\<close>

theorem no_mutation_of_input_witness:
  "(0::nat) < length [mixed_table]
   \<and> prepare_boolean_matrix 0 [''A'', ''B''] [mixed_table]
       = (Inr 2, snd (prepare_boolean_matrix 0 [''A'', ''B''] [mixed_table]))
   \<and> snd (prepare_boolean_matrix 0 [''A'', ''B''] [mixed_table]) ! 0 = mixed_table
   \<and> snd (plot_upset 2 ''upset_plot.png'' (snd (prepare_boolean_matrix 0 [''A'', ''B''] [mixed_table])))
       = snd (prepare_boolean_matrix 0 [''A'', ''B''] [mixed_table])"
proof -
  have a: "(0::nat) < length [mixed_table]" by simp
  have "fst (prepare_boolean_matrix 0 [''A'', ''B''] [mixed_table]) = Inr 2"
    by code_simp
  then have b: "prepare_boolean_matrix 0 [''A'', ''B''] [mixed_table]
       = (Inr 2, snd (prepare_boolean_matrix 0 [''A'', ''B''] [mixed_table]))"
    by (metis prod.collapse)
  show ?thesis
    using no_mutation_of_input [OF a b, of "''upset_plot.png''"] a b by simp
qed

section \<open>The aggregation\<close>

lemma count_pattern_sum:
  "sum_list (map snd (count_pattern p rs)) = Suc (sum_list (map snd rs))"
  by (induction p rs rule: count_pattern.induct) auto

lemma foldl_count_pattern_sum:
  "sum_list (map snd (foldl (\<lambda>rs p. count_pattern p rs) acc ps))
     = length ps + sum_list (map snd acc)"
  by (induction ps arbitrary: acc) (simp_all add: count_pattern_sum)

lemma group_rows_sum: "sum_list (map snd (group_rows ps)) = length ps"
  by (simp add: group_rows_def foldl_count_pattern_sum)

lemma insert_record_sum:
  "sum_list (map snd (insert_record r rs)) = snd r + sum_list (map snd rs)"
  by (induction rs) auto

lemma sort_records_sum: "sum_list (map snd (sort_records rs)) = sum_list (map snd rs)"
  unfolding sort_records_def by (induction rs) (simp_all add: insert_record_sum)

lemma length_memberships: "length (memberships df) = nrows df"
  by (simp add: memberships_def)

text \<open>
  C1 (count conservation).  For every matrix of M rows, the counts of the Intersection
  Records that the aggregation returns sum to M; rows of the empty pattern are counted
  like the others.
\<close>

theorem count_conservation:
  "sum_list (map snd (aggregate boolean_df)) = nrows boolean_df"
  by (simp add: aggregate_def sort_records_sum group_rows_sum length_memberships)

lemma count_pattern_keys:
  "set (map (\<lambda>r. set (fst r)) (count_pattern p rs)) = insert (set p) (set (map (\<lambda>r. set (fst r)) rs))"
  by (induction p rs rule: count_pattern.induct) auto

lemma count_pattern_distinct:
  "distinct (map (\<lambda>r. set (fst r)) rs) \<Longrightarrow> distinct (map (\<lambda>r. set (fst r)) (count_pattern p rs))"
proof (induction p rs rule: count_pattern.induct)
  case (1 p)
  then show ?case by simp
next
  case (2 p q c rs)
  show ?case
  proof (cases "set p = set q")
    case True
    with 2 show ?thesis by simp
  next
    case False
    have "set q \<notin> set (map (\<lambda>r. set (fst r)) (count_pattern p rs))"
      using 2(2) False unfolding count_pattern_keys by auto
    with 2 False show ?thesis by simp
  qed
qed

lemma foldl_count_pattern_distinct:
  "distinct (map (\<lambda>r. set (fst r)) acc) \<Longrightarrow>
   distinct (map (\<lambda>r. set (fst r)) (foldl (\<lambda>rs p. count_pattern p rs) acc ps))"
  by (induction ps arbitrary: acc) (simp_all add: count_pattern_distinct)

lemma group_rows_distinct: "distinct (map (\<lambda>r. set (fst r)) (group_rows ps))"
  by (simp add: group_rows_def foldl_count_pattern_distinct)

lemma insert_record_set: "set (insert_record r rs) = insert r (set rs)"
  by (induction rs) auto

lemma insert_record_distinct:
  "distinct (map f (insert_record r rs)) = (f r \<notin> f ` set rs \<and> distinct (map f rs))"
  by (induction rs) (auto simp: insert_record_set)

lemma sort_records_set: "set (sort_records rs) = set rs"
  unfolding sort_records_def by (induction rs) (simp_all add: insert_record_set)

lemma sort_records_distinct: "distinct (map f (sort_records rs)) = distinct (map f rs)"
  unfolding sort_records_def
  by (induction rs) (simp_all add: insert_record_distinct sort_records_set [unfolded sort_records_def])

lemma aggregate_distinct: "distinct (map (\<lambda>r. set (fst r)) (aggregate df))"
  by (simp add: aggregate_def sort_records_distinct group_rows_distinct)

lemma aggregate_patterns_differ:
  assumes "i < j" and "j < length (aggregate df)"
  shows "set (fst (aggregate df ! i)) \<noteq> set (fst (aggregate df ! j))"
proof -
  let ?ks = "map (\<lambda>r. set (fst r)) (aggregate df)"
  have d: "distinct ?ks" by (rule aggregate_distinct)
  have i: "i < length ?ks" and j: "j < length ?ks" using assms by simp_all
  have "(?ks ! i = ?ks ! j) = (i = j)" by (rule nth_eq_iff_index_eq [OF d i j])
  then show ?thesis using assms by simp
qed

text \<open>
  C4 (pattern uniqueness).  No two Intersection Records of the output have the same
  Membership Pattern, patterns being compared as sets of Set Names.
\<close>

theorem pattern_uniqueness:
  "i < j \<Longrightarrow> j < length (aggregate boolean_df) \<Longrightarrow>
   set (fst (aggregate boolean_df ! i)) \<noteq> set (fst (aggregate boolean_df ! j))"
  by (rule aggregate_patterns_differ)

text \<open>
  The first two records of the scenario of six rows.
\<close>

theorem pattern_uniqueness_witness:
  "(0::nat) < 1 \<and> 1 < length (aggregate scenario_matrix)
   \<and> set (fst (aggregate scenario_matrix ! 0)) \<noteq> set (fst (aggregate scenario_matrix ! 1))"
proof -
  have a: "(0::nat) < 1" by simp
  have b: "1 < length (aggregate scenario_matrix)" by code_simp
  show ?thesis using pattern_uniqueness [OF a b] a b by simp
qed

lemma record_le_total: "record_le r s \<or> record_le s r"
  unfolding record_le_def by auto

lemma record_le_trans: "record_le r s \<Longrightarrow> record_le s t \<Longrightarrow> record_le r t"
  unfolding record_le_def by auto

lemma insert_record_sorted:
  "sorted_wrt record_le rs \<Longrightarrow> sorted_wrt record_le (insert_record r rs)"
proof (induction rs)
  case Nil
  then show ?case by simp
next
  case (Cons s rs)
  show ?case
  proof (cases "record_le r s")
    case True
    with Cons.prems show ?thesis by (auto intro: record_le_trans)
  next
    case False
    then have "record_le s r" using record_le_total by blast
    with Cons False show ?thesis by (auto simp: insert_record_set)
  qed
qed

lemma sort_records_sorted: "sorted_wrt record_le (sort_records rs)"
  unfolding sort_records_def by (induction rs) (simp_all add: insert_record_sorted)

text \<open>
  C3 (sort order).  For adjacent records (p1, c1), (p2, c2) of the output, either
  c1 > c2, or c1 = c2 and p1 comes before p2 in the tie-break: the smaller pattern first,
  and among patterns of one size the lexicographically smaller list of Set Names.
\<close>

theorem sort_order:
  assumes "Suc i < length (aggregate boolean_df)"
    and "aggregate boolean_df ! i = (p1, c1)"
    and "aggregate boolean_df ! Suc i = (p2, c2)"
  shows "c2 < c1 \<or> (c1 = c2 \<and> (length p1 < length p2 \<or> (length p1 = length p2 \<and> p1 < p2)))"
proof -
  have "sorted_wrt record_le (aggregate boolean_df)"
    by (simp add: aggregate_def sort_records_sorted)
  then have le: "record_le (p1, c1) (p2, c2)"
    using assms by (metis lessI sorted_wrt_nth_less)
  have "set p1 \<noteq> set p2"
    using aggregate_patterns_differ [of i "Suc i" boolean_df] assms by simp
  then have "p1 \<noteq> p2" by auto
  with le show ?thesis unfolding record_le_def by auto
qed

text \<open>
  In the scenario of six rows every count is 1; the patterns {A} and {C} come first, A
  before C.
\<close>

theorem sort_order_witness:
  "Suc 0 < length (aggregate scenario_matrix)
   \<and> aggregate scenario_matrix ! 0 = ([''A''], 1)
   \<and> aggregate scenario_matrix ! Suc 0 = ([''C''], 1)
   \<and> length [''A''] = length [''C''] \<and> [''A''] < [''C'']"
proof -
  have a: "Suc 0 < length (aggregate scenario_matrix)" by code_simp
  have b: "aggregate scenario_matrix ! 0 = ([''A''], 1)" by code_simp
  have c: "aggregate scenario_matrix ! Suc 0 = ([''C''], 1)" by code_simp
  show ?thesis using sort_order [OF a b c] a b c by simp
qed

section \<open>The loader\<close>

lemma load_dataset_error:
  "load_dataset e path = Inl err \<Longrightarrow>
   (\<not> path_exists e path \<and> err = SysExit (FileNotFound path))
   \<or> (path_exists e path \<and> \<not> supported_ext path \<and> err = SysExit UnsupportedFormat)"
  by (auto simp: load_dataset_def supported_ext_def Let_def split: if_splits)

lemma load_dataset_ok:
  "load_dataset e path = Inr df \<Longrightarrow> path_exists e path \<and> supported_ext path"
  by (auto simp: load_dataset_def supported_ext_def Let_def split: if_splits)

lemma load_dataset_missing:
  "\<not> path_exists e path \<Longrightarrow> load_dataset e path = Inl (SysExit (FileNotFound path))"
  by (simp add: load_dataset_def)

lemma load_dataset_unsupported:
  "path_exists e path \<Longrightarrow> \<not> supported_ext path \<Longrightarrow>
   load_dataset e path = Inl (SysExit UnsupportedFormat)"
  by (auto simp: load_dataset_def supported_ext_def Let_def)

text \<open>
  C10 (the extension .txt).  A path that exists and whose extension is ".txt" is
  accepted and read by \<^verbatim>\<open>pd.read_csv\<close> with the tab separator, as a path of extension
  ".tsv" is; the tab separator is not the default comma.
\<close>

theorem txt_read_as_tab_delimited:
  assumes "path_exists e path" and "lower (splitext_ext path) = ''.txt'' \<or> lower (splitext_ext path) = ''.tsv''"
  shows "load_dataset e path = Inr (read_csv e path tab) \<and> tab \<noteq> comma"
  using assms by (auto simp: load_dataset_def tab_def comma_def)

text \<open>
  The files data.txt and data.tsv of the example file system.
\<close>

theorem txt_read_as_tab_delimited_witness:
  "path_exists example_env ''data.txt'' \<and> lower (splitext_ext ''data.txt'') = ''.txt''
   \<and> load_dataset example_env ''data.txt'' = Inr (read_csv example_env ''data.txt'' tab)
   \<and> load_dataset example_env ''data.tsv'' = Inr (read_csv example_env ''data.tsv'' tab)
   \<and> load_dataset example_env ''data.txt'' = Inr create_example_demo"
proof -
  have a: "path_exists example_env ''data.txt''" by (simp add: example_env_def)
  have b: "lower (splitext_ext ''data.txt'') = ''.txt''" by code_simp
  have a': "path_exists example_env ''data.tsv''" by (simp add: example_env_def)
  have b': "lower (splitext_ext ''data.tsv'') = ''.tsv''" by code_simp
  have c: "read_csv example_env ''data.txt'' tab = create_example_demo"
    by (simp add: example_env_def)
  show ?thesis
    using txt_read_as_tab_delimited [of example_env "''data.txt''"]
      txt_read_as_tab_delimited [of example_env "''data.tsv''"] a b a' b' c
    by simp
qed

section \<open>The exits of \<^verbatim>\<open>main\<close>\<close>

lemma prepare_no_sys_exit:
  "fst (prepare_boolean_matrix df columns h) \<noteq> Inl (SysExit msg)"
proof
  assume a: "fst (prepare_boolean_matrix df columns h) = Inl (SysExit msg)"
  obtain r h' where p: "prepare_boolean_matrix df columns h = (r, h')"
    by (cases "prepare_boolean_matrix df columns h")
  with a have r: "r = Inl (SysExit msg)" by simp
  from prepare_cases [OF p] r
  obtain sel u where l: "normalize_loop columns (Suc (length h)) (h @ [sel, sel]) = (u, h')"
    and u: "r = (case u of Inl e \<Rightarrow> Inl e | Inr x \<Rightarrow> Inr (Suc (length h)))"
    by auto
  from u r have "u = Inl (SysExit msg)" by (cases u) simp_all
  with l have "fst (normalize_loop columns (Suc (length h)) (h @ [sel, sel])) = Inl (SysExit msg)"
    by simp
  then show False using normalize_loop_error by blast
qed

lemma main_no_file: "\<not> arg_demo a \<Longrightarrow> py_not (arg_file a) \<Longrightarrow> main e a = Inl (SysExit UseFileOrDemo)"
  by (simp add: main_def)

lemma main_load_error:
  "\<not> arg_demo a \<Longrightarrow> \<not> py_not (arg_file a) \<Longrightarrow> load_dataset e (the (arg_file a)) = Inl err \<Longrightarrow>
   main e a = Inl err"
  by (simp add: main_def)

lemma main_no_columns:
  "\<not> arg_demo a \<Longrightarrow> \<not> py_not (arg_file a) \<Longrightarrow> load_dataset e (the (arg_file a)) = Inr df \<Longrightarrow>
   py_not (arg_columns a) \<Longrightarrow> main e a = Inl (SysExit SpecifyColumns)"
  by (simp add: main_def)

lemma main_absent_column:
  assumes "\<not> arg_demo a" and "\<not> py_not (arg_file a)"
    and "load_dataset e (the (arg_file a)) = Inr df" and "arg_columns a = Some cols"
    and "\<not> set cols \<subseteq> set (df_columns df)"
  shows "main e a = Inl (SysExit (ColumnNotFound (hd (filter (\<lambda>c. c \<notin> set (df_columns df)) cols))))"
proof -
  have "filter (\<lambda>c. c \<notin> set (df_columns df)) cols \<noteq> []"
    using assms(5) by (auto simp: filter_empty_conv)
  then obtain c cs where "filter (\<lambda>c. c \<notin> set (df_columns df)) cols = c # cs"
    by (cases "filter (\<lambda>c. c \<notin> set (df_columns df)) cols") auto
  moreover have "cols \<noteq> []" using assms(5) by auto
  ultimately show ?thesis using assms by (simp add: main_def)
qed

lemma main_columns_present:
  assumes "\<not> arg_demo a" and "\<not> py_not (arg_file a)"
    and "load_dataset e (the (arg_file a)) = Inr df" and "arg_columns a = Some cols"
    and "cols \<noteq> []" and "set cols \<subseteq> set (df_columns df)"
  shows "main e a \<noteq> Inl (SysExit msg)"
proof -
  have f: "filter (\<lambda>c. c \<notin> set (df_columns df)) cols = []"
    using assms(6) by (auto simp: filter_empty_conv)
  obtain r h' where p: "prepare_boolean_matrix 0 cols [df] = (r, h')"
    by (cases "prepare_boolean_matrix 0 cols [df]")
  have "r \<noteq> Inl (SysExit msg)"
    using prepare_no_sys_exit [of 0 cols "[df]" msg] p by simp
  then show ?thesis
    using assms f p by (cases r) (simp_all add: main_def alloc_def)
qed

text \<open>
  C6 (empty Set Name list).  The list of Set Names reaches the core through \<^verbatim>\<open>main\<close>
  only.  Outside demo mode (demo mode has a fixed list of three names), when
  \<^verbatim>\<open>--columns\<close> is absent or empty the process ends through \<^verbatim>\<open>sys.exit\<close> with status 1
  and a message, before \<^verbatim>\<open>prepare_boolean_matrix\<close> and \<^verbatim>\<open>plot_upset\<close> are called: the
  result is the error and no figure.  When the file was given and loaded, the message is
  the one that asks for \<^verbatim>\<open>--columns\<close>.
\<close>

theorem missing_columns_exit:
  assumes "\<not> arg_demo a" and "py_not (arg_columns a)"
  shows "(\<exists>msg. main e a = Inl (SysExit msg)) \<and> exit_status (main e a) = 1
    \<and> (\<not> py_not (arg_file a) \<and> load_dataset e (the (arg_file a)) = Inr df
         \<longrightarrow> main e a = Inl (SysExit SpecifyColumns))"
proof (cases "py_not (arg_file a)")
  case True
  then show ?thesis using assms by (simp add: main_no_file)
next
  case False
  show ?thesis
  proof (cases "load_dataset e (the (arg_file a))")
    case (Inl err)
    then have "main e a = Inl err" using assms False by (simp add: main_load_error)
    moreover have "\<exists>msg. err = SysExit msg" using load_dataset_error [OF Inl] by auto
    ultimately show ?thesis using Inl by auto
  next
    case (Inr d)
    then show ?thesis using assms False by (simp add: main_no_columns)
  qed
qed

text \<open>
  \<^verbatim>\<open>--file data.txt\<close> without \<^verbatim>\<open>--columns\<close>.
\<close>

theorem missing_columns_exit_witness:
  "\<not> arg_demo no_columns_args \<and> py_not (arg_columns no_columns_args)
   \<and> \<not> py_not (arg_file no_columns_args)
   \<and> load_dataset example_env (the (arg_file no_columns_args)) = Inr create_example_demo
   \<and> main example_env no_columns_args = Inl (SysExit SpecifyColumns)
   \<and> exit_status (main example_env no_columns_args) = 1"
proof -
  have a: "\<not> arg_demo no_columns_args" by (simp add: no_columns_args_def)
  have b: "py_not (arg_columns no_columns_args)" by (simp add: no_columns_args_def)
  have c: "\<not> py_not (arg_file no_columns_args)" by (simp add: no_columns_args_def)
  have "lower (splitext_ext ''data.txt'') = ''.txt''" by code_simp
  then have d: "load_dataset example_env (the (arg_file no_columns_args)) = Inr create_example_demo"
    by (simp add: load_dataset_def no_columns_args_def example_env_def)
  show ?thesis
    using missing_columns_exit [OF a b, of example_env create_example_demo] a b c d by simp
qed

text \<open>
  C8, as stated, fails: outside demo mode and without \<^verbatim>\<open>--file\<close> the process ends
  with status 1 and a message of its own, in none of the four listed cases.
\<close>

theorem exit_without_file:
  "\<not> arg_demo no_file_args \<and> main example_env no_file_args = Inl (SysExit UseFileOrDemo)
   \<and> exit_status (main example_env no_file_args) = 1
   \<and> \<not> claimed_exit_case example_env no_file_args"
  by (simp add: main_def no_file_args_def claimed_exit_case_def)

text \<open>
  C8 (exit behaviour), amended.  Outside demo mode, \<^verbatim>\<open>main\<close> ends the process through
  \<^verbatim>\<open>sys.exit\<close> exactly when \<^verbatim>\<open>--file\<close> is absent or empty or one of the four listed
  cases holds.  The message is that of the first failed check: no \<^verbatim>\<open>--file\<close>; the file
  not found, with its path; the unsupported extension; no \<^verbatim>\<open>--columns\<close>; the first
  requested column that the loaded table lacks, by name.  The status is 1.
\<close>

theorem exit_cases:
  assumes "\<not> arg_demo a"
  shows "((\<exists>msg. main e a = Inl (SysExit msg)) = (py_not (arg_file a) \<or> claimed_exit_case e a))
    \<and> (py_not (arg_file a) \<longrightarrow> main e a = Inl (SysExit UseFileOrDemo))
    \<and> (arg_file a = Some path \<and> path \<noteq> [] \<and> \<not> path_exists e path
         \<longrightarrow> main e a = Inl (SysExit (FileNotFound path)))
    \<and> (arg_file a = Some path \<and> path \<noteq> [] \<and> path_exists e path \<and> \<not> supported_ext path
         \<longrightarrow> main e a = Inl (SysExit UnsupportedFormat))
    \<and> (arg_file a = Some path \<and> path \<noteq> [] \<and> load_dataset e path = Inr df
           \<and> py_not (arg_columns a)
         \<longrightarrow> main e a = Inl (SysExit SpecifyColumns))
    \<and> (arg_file a = Some path \<and> path \<noteq> [] \<and> load_dataset e path = Inr df
           \<and> arg_columns a = Some cols \<and> \<not> set cols \<subseteq> set (df_columns df)
         \<longrightarrow> main e a =
               Inl (SysExit (ColumnNotFound (hd (filter (\<lambda>c. c \<notin> set (df_columns df)) cols)))))
    \<and> (main e a = Inl err \<longrightarrow> exit_status (main e a) = 1)"
proof -
  have m1: "py_not (arg_file a) \<longrightarrow> main e a = Inl (SysExit UseFileOrDemo)"
    using assms by (simp add: main_no_file)
  have m2: "arg_file a = Some path \<and> path \<noteq> [] \<and> \<not> path_exists e path
         \<longrightarrow> main e a = Inl (SysExit (FileNotFound path))"
    using assms by (auto simp: main_load_error load_dataset_missing)
  have m3: "arg_file a = Some path \<and> path \<noteq> [] \<and> path_exists e path \<and> \<not> supported_ext path
         \<longrightarrow> main e a = Inl (SysExit UnsupportedFormat)"
    using assms by (auto simp: main_load_error load_dataset_unsupported)
  have m4: "arg_file a = Some path \<and> path \<noteq> [] \<and> load_dataset e path = Inr df
           \<and> py_not (arg_columns a)
         \<longrightarrow> main e a = Inl (SysExit SpecifyColumns)"
    using assms by (auto simp: main_no_columns)
  have m5: "arg_file a = Some path \<and> path \<noteq> [] \<and> load_dataset e path = Inr df
           \<and> arg_columns a = Some cols \<and> \<not> set cols \<subseteq> set (df_columns df)
         \<longrightarrow> main e a =
               Inl (SysExit (ColumnNotFound (hd (filter (\<lambda>c. c \<notin> set (df_columns df)) cols))))"
    using assms by (auto simp: main_absent_column)
  have m6: "main e a = Inl err \<longrightarrow> exit_status (main e a) = 1" by simp
  have iff: "(\<exists>msg. main e a = Inl (SysExit msg)) = (py_not (arg_file a) \<or> claimed_exit_case e a)"
  proof (cases "py_not (arg_file a)")
    case True
    then show ?thesis using m1 by simp
  next
    case False
    then obtain p where p: "arg_file a = Some p" "p \<noteq> []"
      by (cases "arg_file a") auto
    show ?thesis
    proof (cases "load_dataset e p")
      case (Inl err)
      then have "main e a = Inl err" using assms False p by (simp add: main_load_error)
      moreover from load_dataset_error [OF Inl]
      have "(\<exists>msg. err = SysExit msg) \<and> claimed_exit_case e a"
        using p by (auto simp: claimed_exit_case_def)
      ultimately show ?thesis by auto
    next
      case (Inr d)
      note ok = load_dataset_ok [OF Inr]
      show ?thesis
      proof (cases "py_not (arg_columns a)")
        case True
        then have "main e a = Inl (SysExit SpecifyColumns)"
          using assms False p Inr by (simp add: main_no_columns)
        then show ?thesis using True by (simp add: claimed_exit_case_def)
      next
        case nc: False
        then obtain cs where cs: "arg_columns a = Some cs" "cs \<noteq> []"
          by (cases "arg_columns a") auto
        show ?thesis
        proof (cases "set cs \<subseteq> set (df_columns d)")
          case True
          then have "\<forall>msg. main e a \<noteq> Inl (SysExit msg)"
            using main_columns_present [of a e d cs] assms False p Inr cs by simp
          moreover have "\<not> claimed_exit_case e a"
            using p cs Inr ok True nc False by (simp add: claimed_exit_case_def)
          ultimately show ?thesis using False by simp
        next
          case sub: False
          then have "\<exists>msg. main e a = Inl (SysExit msg)"
            using main_absent_column [of a e d cs] assms False p Inr cs by simp
          moreover have "claimed_exit_case e a"
            using p cs Inr sub by (simp add: claimed_exit_case_def)
          ultimately show ?thesis by simp
        qed
      qed
    qed
  qed
  show ?thesis using iff m1 m2 m3 m4 m5 m6 by blast
qed

text \<open>
  \<^verbatim>\<open>--file data.txt --columns Condition_A Condition_D\<close>: the message names
  Condition_D.
\<close>

theorem exit_cases_witness:
  "\<not> arg_demo absent_column_args \<and> arg_file absent_column_args = Some ''data.txt''
   \<and> load_dataset example_env ''data.txt'' = Inr create_example_demo
   \<and> arg_columns absent_column_args = Some [''Condition_A'', ''Condition_D'']
   \<and> \<not> set [''Condition_A'', ''Condition_D''] \<subseteq> set (df_columns create_example_demo)
   \<and> claimed_exit_case example_env absent_column_args
   \<and> main example_env absent_column_args = Inl (SysExit (ColumnNotFound ''Condition_D''))
   \<and> exit_status (main example_env absent_column_args) = 1"
proof -
  have a: "\<not> arg_demo absent_column_args" by (simp add: absent_column_args_def)
  have b: "arg_file absent_column_args = Some ''data.txt''" by (simp add: absent_column_args_def)
  have "lower (splitext_ext ''data.txt'') = ''.txt''" by code_simp
  then have c: "load_dataset example_env ''data.txt'' = Inr create_example_demo"
    by (simp add: load_dataset_def example_env_def)
  have d: "arg_columns absent_column_args = Some [''Condition_A'', ''Condition_D'']"
    by (simp add: absent_column_args_def)
  have f: "\<not> set [''Condition_A'', ''Condition_D''] \<subseteq> set (df_columns create_example_demo)"
    by (simp add: df_columns_def create_example_demo_def)
  have g: "hd (filter (\<lambda>c. c \<notin> set (df_columns create_example_demo)) [''Condition_A'', ''Condition_D''])
      = ''Condition_D''"
    by (simp add: df_columns_def create_example_demo_def)
  have h: "claimed_exit_case example_env absent_column_args"
    using b c d f by (simp add: claimed_exit_case_def)
  show ?thesis
    using exit_cases [OF a, of example_env "''data.txt''" create_example_demo
        "[''Condition_A'', ''Condition_D'']"] a b c d f g h
    by simp
qed

end
